theory Spec2Isabelle
  imports Main
begin

section \<open>lager/context.hpp: action domains, dispatchers, contexts and effects\<close>

text \<open>
  The file holds the header in two revisions. The embedding follows the first, in which
  \<^verbatim>\<open>effect\<close> is an alias of \<^verbatim>\<open>std::function\<close>; \<^verbatim>\<open>merge_actions_aux\<close>,
  \<^verbatim>\<open>invoke_reducer\<close> and \<^verbatim>\<open>sequence\<close> read the same in the second.

  The header is template code: the action types are C++ types, and which type converts to
  which is decided by the compiler (\<^verbatim>\<open>std::is_convertible\<close>). The embedding takes
  the type names as values of a type \<open>'t\<close> and the convertibility relation as a parameter
  \<open>conv\<close> (\<open>conv a b\<close>: an \<open>a\<close> converts implicitly to a \<open>b\<close>), the value conversion
  as a parameter \<open>cast\<close>. Action values are pairs of their static type and a payload \<open>'v\<close>.
  Whatever a callable does to the rest of the program is a function on a state \<open>'w\<close>.

  Everything that stops a computation is a value of \<open>error\<close>: the first three are
  rejections by the compiler (a failed \<^verbatim>\<open>static_assert\<close>, \<^verbatim>\<open>.value()\<close> of an empty
  \<^verbatim>\<open>hana::optional\<close>, a call no \<^verbatim>\<open>operator()\<close> accepts), \<open>bad_function_call\<close> is
  the exception of an empty \<^verbatim>\<open>std::function\<close>, \<open>null_pointer_dereference\<close> and
  \<open>invalid_pointer\<close> stand for the undefined behaviour of \<^verbatim>\<open>*loop_\<close> on a pointer
  that owns nothing, and \<open>thrown\<close> is any exception of a user callable.
\<close>

datatype error =
    static_assert_failed
  | no_convertible_action
  | no_matching_overload
  | bad_function_call
  | null_pointer_dereference
  | invalid_pointer
  | thrown string

subsection \<open>actions, as\_actions\<close>

text \<open>
  A template argument \<^verbatim>\<open>ActionOrActions\<close> is a single action type or \<^verbatim>\<open>actions<Ts...>\<close>.
  \<open>as_actions_t\<close> gives the members of \<^verbatim>\<open>as_actions_t<T>\<close> in order, that is the tuple
  \<^verbatim>\<open>as_actions_t<T>::as_hana_\<close>. The member types themselves are not of the form
  \<^verbatim>\<open>actions<...>\<close>.
\<close>

datatype 't action_or_actions = action 't | actions "'t list"

fun as_actions_t :: "'t action_or_actions \<Rightarrow> 't list" where
  "as_actions_t (actions ts) = ts"
| "as_actions_t (action t) = [t]"

subsection \<open>find\_convertible\_action, merge\_actions\<close>

definition find_convertible_action_aux ::
  "('t \<Rightarrow> 't \<Rightarrow> bool) \<Rightarrow> 't \<Rightarrow> 't list \<Rightarrow> error + 't" where
  "find_convertible_action_aux conv act candidates =
     (case find (\<lambda>t. conv act t) candidates of
        None \<Rightarrow> Inl no_convertible_action
      | Some t \<Rightarrow> Inr t)"

definition has_convertible :: "('t \<Rightarrow> 't \<Rightarrow> bool) \<Rightarrow> 't list \<Rightarrow> 't \<Rightarrow> bool" where
  "has_convertible conv seq x = (find (\<lambda>t. conv x t) seq \<noteq> None)"

definition remove_convertibles :: "('t \<Rightarrow> 't \<Rightarrow> bool) \<Rightarrow> 't list \<Rightarrow> 't \<Rightarrow> 't list" where
  "remove_convertibles conv seq x = filter (\<lambda>t. \<not> conv x t) seq"

text \<open>The function folded over \<^verbatim>\<open>a1\<close>, and the fold itself (the local \<^verbatim>\<open>result\<close>).\<close>

definition merge_step :: "('t \<Rightarrow> 't \<Rightarrow> bool) \<Rightarrow> 't list \<Rightarrow> 't \<Rightarrow> 't list" where
  "merge_step conv acc x =
     (if has_convertible conv acc x then acc
      else (let xs = remove_convertibles conv acc x in xs @ [x]))"

definition merge_result :: "('t \<Rightarrow> 't \<Rightarrow> bool) \<Rightarrow> 't list \<Rightarrow> 't list \<Rightarrow> 't list" where
  "merge_result conv a1 a2 = fold (\<lambda>x acc. merge_step conv acc x) a1 a2"

definition merge_actions_aux ::
  "('t \<Rightarrow> 't \<Rightarrow> bool) \<Rightarrow> 't list \<Rightarrow> 't list \<Rightarrow> error + 't action_or_actions" where
  "merge_actions_aux conv a1 a2 =
     (if \<not> length a1 > 0 then Inl static_assert_failed
      else if \<not> length a2 > 0 then Inl static_assert_failed
      else (let result = merge_result conv a1 a2 in
        if \<not> length result > 0 then Inl static_assert_failed
        else if length result = 1 then Inr (action (result ! 0))
        else Inr (actions result)))"

definition merge_actions_t ::
  "('t \<Rightarrow> 't \<Rightarrow> bool) \<Rightarrow> 't action_or_actions \<Rightarrow> 't action_or_actions
     \<Rightarrow> error + 't action_or_actions" where
  "merge_actions_t conv Actions1 Actions2 =
     merge_actions_aux conv (as_actions_t Actions1) (as_actions_t Actions2)"

text \<open>
  The merge as the specification words it: fold the members of the first domain into an
  accumulator that starts as the second; a member that converts to some member of the
  accumulator is absorbed, any other is added; one remaining member is a bare type.
\<close>

definition keep_or_append :: "('t \<Rightarrow> 't \<Rightarrow> bool) \<Rightarrow> 't list \<Rightarrow> 't \<Rightarrow> 't list" where
  "keep_or_append conv acc x = (if list_ex (\<lambda>t. conv x t) acc then acc else acc @ [x])"

definition merge_spec ::
  "('t \<Rightarrow> 't \<Rightarrow> bool) \<Rightarrow> 't action_or_actions \<Rightarrow> 't action_or_actions \<Rightarrow> 't action_or_actions" where
  "merge_spec conv D1 D2 =
     (let D3 = fold (\<lambda>x acc. keep_or_append conv acc x) (as_actions_t D1) (as_actions_t D2) in
      if length D3 = 1 then action (hd D3) else actions D3)"

text \<open>
  A convertibility relation in which the type \<open>''pinned''\<close> converts to nothing, itself
  included, as a class with deleted copy and move constructors does, and every other type
  converts to itself only.
\<close>

definition conv_pinned :: "string \<Rightarrow> string \<Rightarrow> bool" where
  "conv_pinned a b = (a = b \<and> a \<noteq> ''pinned'')"

text \<open>
  The convertibility relation of the example in the header's documentation:
  \<^verbatim>\<open>any_action = std::variant<action_A, action_B, action_C>\<close>, every type converts
  to itself and each alternative converts to the variant.
\<close>

definition conv_variant :: "string \<Rightarrow> string \<Rightarrow> bool" where
  "conv_variant a b =
     (a = b \<or> (b = ''any_action'' \<and> (a = ''action_A'' \<or> a = ''action_B'' \<or> a = ''action_C'')))"

subsection \<open>dispatcher\<close>

text \<open>
  \<^verbatim>\<open>dispatcher<actions<Actions...>>\<close> derives from one \<^verbatim>\<open>std::function<void(A)>\<close> per
  member \<open>A\<close>: a list of the member types, each with its function object, \<open>None\<close> the
  empty one. A call \<^verbatim>\<open>f(act)\<close> of a function object is \<open>function_call\<close>.
\<close>

type_synonym ('v, 'w) std_function = "('v \<Rightarrow> 'w \<Rightarrow> error + 'w) option"

type_synonym ('t, 'v, 'w) dispatcher = "('t \<times> ('v, 'w) std_function) list"

definition function_call :: "('v, 'w) std_function \<Rightarrow> 'v \<Rightarrow> 'w \<Rightarrow> error + 'w" where
  "function_call f act w = (case f of None \<Rightarrow> Inl bad_function_call | Some g \<Rightarrow> g act w)"

text \<open>The implicit conversion of a value of type \<open>A\<close> to type \<open>B\<close>: a copy when they agree.\<close>

definition implicit_conversion :: "('t \<Rightarrow> 't \<Rightarrow> 'v \<Rightarrow> 'v) \<Rightarrow> 't \<Rightarrow> 't \<Rightarrow> 'v \<Rightarrow> 'v" where
  "implicit_conversion cast A B act = (if A = B then act else cast A B act)"

text \<open>
  \<^verbatim>\<open>std::function<void(A)>\<close> initialised from a \<^verbatim>\<open>std::function<void(B)>\<close>: empty when
  the source is, else a function object that passes its argument, converted, to the source.
\<close>

definition function_from ::
  "('t \<Rightarrow> 't \<Rightarrow> 'v \<Rightarrow> 'v) \<Rightarrow> 't \<Rightarrow> 't \<Rightarrow> ('v, 'w) std_function \<Rightarrow> ('v, 'w) std_function" where
  "function_from cast A B f =
     (case f of None \<Rightarrow> None
      | Some g \<Rightarrow> Some (\<lambda>act w. g (implicit_conversion cast A B act) w))"

text \<open>A pack expansion is well-formed when each of its elements is.\<close>

fun expand :: "(error + 'a) list \<Rightarrow> error + 'a list" where
  "expand [] = Inr []"
| "expand (Inl e # rs) = Inl e"
| "expand (Inr x # rs) = (case expand rs of Inl e \<Rightarrow> Inl e | Inr xs \<Rightarrow> Inr (x # xs))"

definition dispatcher_default :: "'t list \<Rightarrow> ('t, 'v, 'w) dispatcher" where
  "dispatcher_default Actions = map (\<lambda>A. (A, None)) Actions"

text \<open>
  \<^verbatim>\<open>dispatcher(dispatcher<actions<As...>> other)\<close>: the base for \<open>A\<close> is initialised from
  the base of \<open>other\<close> for \<^verbatim>\<open>find_convertible_action_t<A, As...>\<close>.
\<close>

definition dispatcher_converting ::
  "('t \<Rightarrow> 't \<Rightarrow> bool) \<Rightarrow> ('t \<Rightarrow> 't \<Rightarrow> 'v \<Rightarrow> 'v) \<Rightarrow> 't list \<Rightarrow> ('t, 'v, 'w) dispatcher
     \<Rightarrow> error + ('t, 'v, 'w) dispatcher" where
  "dispatcher_converting conv cast Actions other =
     expand (map (\<lambda>A.
       case find_convertible_action_aux conv A (map fst other) of
         Inl e \<Rightarrow> Inl e
       | Inr B \<Rightarrow> (case map_of other B of
                    None \<Rightarrow> Inl no_convertible_action
                  | Some f \<Rightarrow> Inr (A, function_from cast A B f))) Actions)"

text \<open>
  A converter is a callable on actions: for an argument type it has a result type
  (\<^verbatim>\<open>std::result_of_t<Converter(Action)>\<close>) and a function on the values.
  \<^verbatim>\<open>dispatcher_fn_aux\<close> returns the closure \<^verbatim>\<open>[conv, other](auto&& act) { other(conv(act)); }\<close>.
\<close>

type_synonym ('t, 'v) converter = "'t \<Rightarrow> 't \<times> ('v \<Rightarrow> 'v)"

definition dispatcher_fn_aux ::
  "('t \<Rightarrow> 't \<Rightarrow> bool) \<Rightarrow> ('t \<Rightarrow> 't \<Rightarrow> 'v \<Rightarrow> 'v) \<Rightarrow> 't \<Rightarrow> ('t, 'v, 'w) dispatcher
     \<Rightarrow> ('t, 'v) converter \<Rightarrow> error + ('v \<Rightarrow> 'w \<Rightarrow> error + 'w)" where
  "dispatcher_fn_aux conv cast Action other0 c =
     (case find_convertible_action_aux conv (fst (c Action)) (map fst other0) of
        Inl e \<Rightarrow> Inl e
      | Inr B \<Rightarrow> (case map_of other0 B of
                   None \<Rightarrow> Inl no_convertible_action
                 | Some other \<Rightarrow>
                     Inr (\<lambda>act w. function_call other
                            (implicit_conversion cast (fst (c Action)) B (snd (c Action) act)) w)))"

definition dispatcher_converting_with ::
  "('t \<Rightarrow> 't \<Rightarrow> bool) \<Rightarrow> ('t \<Rightarrow> 't \<Rightarrow> 'v \<Rightarrow> 'v) \<Rightarrow> 't list \<Rightarrow> ('t, 'v, 'w) dispatcher
     \<Rightarrow> ('t, 'v) converter \<Rightarrow> error + ('t, 'v, 'w) dispatcher" where
  "dispatcher_converting_with conv cast Actions other c =
     expand (map (\<lambda>A.
       case dispatcher_fn_aux conv cast A other c of
         Inl e \<Rightarrow> Inl e
       | Inr f \<Rightarrow> Inr (A, Some f)) Actions)"

text \<open>
  Initialising a \<^verbatim>\<open>dispatcher<actions_t>\<close> from a dispatcher: the copy constructor when
  the two have the same member types, the converting constructor otherwise.
\<close>

definition dispatcher_init ::
  "('t \<Rightarrow> 't \<Rightarrow> bool) \<Rightarrow> ('t \<Rightarrow> 't \<Rightarrow> 'v \<Rightarrow> 'v) \<Rightarrow> 't list \<Rightarrow> ('t, 'v, 'w) dispatcher
     \<Rightarrow> error + ('t, 'v, 'w) dispatcher" where
  "dispatcher_init conv cast Actions other =
     (if map fst other = Actions then Inr other
      else dispatcher_converting conv cast Actions other)"

text \<open>
  The inherited \<^verbatim>\<open>operator()\<close>s. An action whose static type is a member is an exact
  match for that member's function object. For a type outside the domain the compiler
  chooses among the members it converts to; that choice is not modelled, the call is
  \<open>no_matching_overload\<close>.
\<close>

definition dispatcher_call ::
  "('t, 'v, 'w) dispatcher \<Rightarrow> 't \<times> 'v \<Rightarrow> 'w \<Rightarrow> error + 'w" where
  "dispatcher_call d act w =
     (case map_of d (fst act) of
        None \<Rightarrow> Inl no_matching_overload
      | Some f \<Rightarrow> function_call f (snd act) w)"

subsection \<open>context\<close>

text \<open>
  The members \<^verbatim>\<open>dispatcher_\<close> and \<^verbatim>\<open>loop_\<close> are the fields \<open>dispatcher_m\<close> and \<open>loop_m\<close>.
  \<open>loop_m\<close> is the \<^verbatim>\<open>std::shared_ptr<event_loop_iface>\<close>: \<open>None\<close> the null pointer, else the
  address of the \<^verbatim>\<open>event_loop_impl\<close> it shares. The objects made by \<^verbatim>\<open>std::make_shared\<close>
  are a list \<open>'l list\<close>, the address an index into it; each holds the reference to its host
  loop, a value of \<open>'l\<close>. \<open>deps\<close> is the base class \<^verbatim>\<open>Deps\<close>, of \<^verbatim>\<open>lager/deps.hpp\<close>, an
  opaque value; its conversion \<^verbatim>\<open>deps_t{ctx}\<close> is a parameter \<open>deps_from\<close>.
  The constructors take the heap and return it, so that an allocation shows.
\<close>

record ('t, 'v, 'w, 'd) "context" =
  deps :: 'd
  dispatcher_m :: "('t, 'v, 'w) dispatcher"
  loop_m :: "nat option"

definition context_default ::
  "'t list \<Rightarrow> 'd \<Rightarrow> 'l list \<Rightarrow> ('t, 'v, 'w, 'd) context \<times> 'l list" where
  "context_default Actions d0 h =
     (\<lparr>deps = d0, dispatcher_m = dispatcher_default Actions, loop_m = None\<rparr>, h)"

text \<open>The implicit copy constructor copies the three members.\<close>

definition context_copy ::
  "('t, 'v, 'w, 'd) context \<Rightarrow> 'l list \<Rightarrow> ('t, 'v, 'w, 'd) context \<times> 'l list" where
  "context_copy ctx h =
     (\<lparr>deps = deps ctx, dispatcher_m = dispatcher_m ctx, loop_m = loop_m ctx\<rparr>, h)"

definition context_converting ::
  "('t \<Rightarrow> 't \<Rightarrow> bool) \<Rightarrow> ('t \<Rightarrow> 't \<Rightarrow> 'v \<Rightarrow> 'v) \<Rightarrow> ('d \<Rightarrow> 'd) \<Rightarrow> 't list
     \<Rightarrow> ('t, 'v, 'w, 'd) context \<Rightarrow> 'l list \<Rightarrow> error + ('t, 'v, 'w, 'd) context \<times> 'l list" where
  "context_converting conv cast deps_from Actions ctx h =
     (case dispatcher_init conv cast Actions (dispatcher_m ctx) of
        Inl e \<Rightarrow> Inl e
      | Inr d \<Rightarrow> Inr (\<lparr>deps = deps_from (deps ctx), dispatcher_m = d, loop_m = loop_m ctx\<rparr>, h))"

definition context_converting_with ::
  "('t \<Rightarrow> 't \<Rightarrow> bool) \<Rightarrow> ('t \<Rightarrow> 't \<Rightarrow> 'v \<Rightarrow> 'v) \<Rightarrow> ('d \<Rightarrow> 'd) \<Rightarrow> 't list
     \<Rightarrow> ('t, 'v, 'w, 'd) context \<Rightarrow> ('t, 'v) converter \<Rightarrow> 'l list
     \<Rightarrow> error + ('t, 'v, 'w, 'd) context \<times> 'l list" where
  "context_converting_with conv cast deps_from Actions ctx c h =
     (case dispatcher_converting_with conv cast Actions (dispatcher_m ctx) c of
        Inl e \<Rightarrow> Inl e
      | Inr d \<Rightarrow> Inr (\<lparr>deps = deps_from (deps ctx), dispatcher_m = d, loop_m = loop_m ctx\<rparr>, h))"

text \<open>
  \<^verbatim>\<open>context(Dispatcher dispatcher, EventLoop& loop, deps_t deps)\<close>, for a \<^verbatim>\<open>Dispatcher\<close>
  that is a dispatcher. \<^verbatim>\<open>std::make_shared\<close> creates a new object, at the next address.
\<close>

definition context_from_loop ::
  "('t \<Rightarrow> 't \<Rightarrow> bool) \<Rightarrow> ('t \<Rightarrow> 't \<Rightarrow> 'v \<Rightarrow> 'v) \<Rightarrow> 't list \<Rightarrow> ('t, 'v, 'w) dispatcher \<Rightarrow> 'l \<Rightarrow> 'd
     \<Rightarrow> 'l list \<Rightarrow> error + ('t, 'v, 'w, 'd) context \<times> 'l list" where
  "context_from_loop conv cast Actions dispatcher event_loop ds h =
     (case dispatcher_init conv cast Actions dispatcher of
        Inl e \<Rightarrow> Inl e
      | Inr d \<Rightarrow> Inr (\<lparr>deps = ds, dispatcher_m = d, loop_m = Some (length h)\<rparr>, h @ [event_loop]))"

text \<open>
  The struct declares no copy or move constructor, no assignment and no destructor, so
  the compiler defines them, member by member. \<open>context_move\<close> is the move constructor:
  it gives the new context and the source as the move leaves it, whose pointer is null
  and whose function objects and deps are in a valid but unspecified state, the
  parameters \<open>left_dispatcher\<close> and \<open>left_deps\<close>. \<open>context_assign this other\<close> is the copy
  assignment \<^verbatim>\<open>this = other\<close> of two contexts of one type and gives the receiver as the
  assignment leaves it; \<open>context_move_assign\<close> is the move assignment and gives the
  receiver and the source.
\<close>

definition context_move ::
  "('t, 'v, 'w, 'd) context \<Rightarrow> ('t, 'v, 'w) dispatcher \<Rightarrow> 'd \<Rightarrow> 'l list
     \<Rightarrow> (('t, 'v, 'w, 'd) context \<times> ('t, 'v, 'w, 'd) context) \<times> 'l list" where
  "context_move other left_dispatcher left_deps h =
     ((\<lparr>deps = deps other, dispatcher_m = dispatcher_m other, loop_m = loop_m other\<rparr>,
       \<lparr>deps = left_deps, dispatcher_m = left_dispatcher, loop_m = None\<rparr>), h)"

definition context_assign ::
  "('t, 'v, 'w, 'd) context \<Rightarrow> ('t, 'v, 'w, 'd) context \<Rightarrow> 'l list
     \<Rightarrow> ('t, 'v, 'w, 'd) context \<times> 'l list" where
  "context_assign this other h =
     (this\<lparr>deps := deps other, dispatcher_m := dispatcher_m other, loop_m := loop_m other\<rparr>, h)"

definition context_move_assign ::
  "('t, 'v, 'w, 'd) context \<Rightarrow> ('t, 'v, 'w, 'd) context \<Rightarrow> ('t, 'v, 'w) dispatcher \<Rightarrow> 'd
     \<Rightarrow> 'l list \<Rightarrow> (('t, 'v, 'w, 'd) context \<times> ('t, 'v, 'w, 'd) context) \<times> 'l list" where
  "context_move_assign this other left_dispatcher left_deps h =
     ((this\<lparr>deps := deps other, dispatcher_m := dispatcher_m other, loop_m := loop_m other\<rparr>,
       \<lparr>deps = left_deps, dispatcher_m = left_dispatcher, loop_m = None\<rparr>), h)"

text \<open>
  The two member functions. Both are \<^verbatim>\<open>const\<close>; each returns the receiver as the call
  leaves it, and the outcome of the call.
\<close>

definition dispatch ::
  "('t, 'v, 'w, 'd) context \<Rightarrow> 't \<times> 'v \<Rightarrow> 'w \<Rightarrow> ('t, 'v, 'w, 'd) context \<times> (error + 'w)" where
  "dispatch ctx act w = (ctx, dispatcher_call (dispatcher_m ctx) act w)"

definition loop ::
  "('t, 'v, 'w, 'd) context \<Rightarrow> 'l list \<Rightarrow> ('t, 'v, 'w, 'd) context \<times> (error + 'l)" where
  "loop ctx h =
     (ctx, case loop_m ctx of
             None \<Rightarrow> Inl null_pointer_dereference
           | Some p \<Rightarrow> if p < length h then Inr (h ! p) else Inl invalid_pointer)"

text \<open>How a context came to be: the constructors applied, innermost first.\<close>

datatype ('t, 'v, 'w, 'd, 'l) construction =
    by_default "'t list" 'd
  | by_loop "'t list" "('t, 'v, 'w) dispatcher" 'l 'd
  | by_copy "('t, 'v, 'w, 'd, 'l) construction"
  | by_conversion "'t list" "('t, 'v, 'w, 'd, 'l) construction"
  | by_conversion_with "'t list" "('t, 'v) converter" "('t, 'v, 'w, 'd, 'l) construction"

fun construct ::
  "('t \<Rightarrow> 't \<Rightarrow> bool) \<Rightarrow> ('t \<Rightarrow> 't \<Rightarrow> 'v \<Rightarrow> 'v) \<Rightarrow> ('d \<Rightarrow> 'd) \<Rightarrow> ('t, 'v, 'w, 'd, 'l) construction
     \<Rightarrow> 'l list \<Rightarrow> error + ('t, 'v, 'w, 'd) context \<times> 'l list" where
  "construct conv cast deps_from (by_default Actions d0) h = Inr (context_default Actions d0 h)"
| "construct conv cast deps_from (by_loop Actions dispatcher event_loop ds) h =
     context_from_loop conv cast Actions dispatcher event_loop ds h"
| "construct conv cast deps_from (by_copy k) h =
     (case construct conv cast deps_from k h of
        Inl e \<Rightarrow> Inl e
      | Inr (ctx, h') \<Rightarrow> Inr (context_copy ctx h'))"
| "construct conv cast deps_from (by_conversion Actions k) h =
     (case construct conv cast deps_from k h of
        Inl e \<Rightarrow> Inl e
      | Inr (ctx, h') \<Rightarrow> context_converting conv cast deps_from Actions ctx h')"
| "construct conv cast deps_from (by_conversion_with Actions c k) h =
     (case construct conv cast deps_from k h of
        Inl e \<Rightarrow> Inl e
      | Inr (ctx, h') \<Rightarrow> context_converting_with conv cast deps_from Actions ctx c h')"

fun from_live_loop :: "('t, 'v, 'w, 'd, 'l) construction \<Rightarrow> bool" where
  "from_live_loop (by_default Actions d0) = False"
| "from_live_loop (by_loop Actions dispatcher event_loop ds) = True"
| "from_live_loop (by_copy k) = from_live_loop k"
| "from_live_loop (by_conversion Actions k) = from_live_loop k"
| "from_live_loop (by_conversion_with Actions c k) = from_live_loop k"

subsection \<open>effect, is\_empty\_effect, sequence\<close>

text \<open>
  Modelled from the spec: \<^verbatim>\<open>noop\<close>, of \<^verbatim>\<open>lager/util.hpp\<close>, is not among the sources.
  The specification has it as the designated no-op value: \<open>noop\<close> is a callable object
  that does nothing when it is called. \<open>procedure f\<close> is any other callable, with body \<open>f\<close>.
\<close>

datatype ('c, 'w) callable = noop | procedure "'c \<Rightarrow> 'w \<Rightarrow> error + 'w"

fun call :: "('c, 'w) callable \<Rightarrow> 'c \<Rightarrow> 'w \<Rightarrow> error + 'w" where
  "call noop ctx w = Inr w"
| "call (procedure f) ctx w = f ctx w"

text \<open>
  \<^verbatim>\<open>effect<Action, Deps>\<close> is \<^verbatim>\<open>std::function<void(const context<Action, Deps>&)>\<close>:
  \<open>None\<close> when it holds no callable, else the callable it holds, which is its own copy of
  the one it was initialised from. The contexts are values of \<open>'c\<close>; the conversion of a
  context to the context type of the effect it is passed to is left to the caller.
  \<open>invoke v ctx\<close> is the call \<^verbatim>\<open>v(ctx)\<close>.
\<close>

type_synonym ('c, 'w) effect = "('c, 'w) callable option"

definition invoke :: "('c, 'w) effect \<Rightarrow> 'c \<Rightarrow> 'w \<Rightarrow> error + 'w" where
  "invoke v ctx w = (case v of None \<Rightarrow> Inl bad_function_call | Some t \<Rightarrow> call t ctx w)"

text \<open>
  The pointers that \<^verbatim>\<open>is_empty_effect\<close> compares: the null pointer, the address of the
  object \<^verbatim>\<open>noop\<close>, and the address of the copy that the function object stores, which
  is another object. \<^verbatim>\<open>v.target<decltype(noop)>()\<close> is the address of the stored copy
  when \<open>v\<close> holds a callable of the type of \<^verbatim>\<open>noop\<close>, and null otherwise.
\<close>

datatype pointer = nullptr | address_of_noop | address_of_stored_copy

definition target :: "('c, 'w) effect \<Rightarrow> pointer" where
  "target v =
     (case v of
        None \<Rightarrow> nullptr
      | Some noop \<Rightarrow> address_of_stored_copy
      | Some (procedure f) \<Rightarrow> nullptr)"

definition is_empty_effect :: "('c, 'w) effect \<Rightarrow> bool" where
  "is_empty_effect v = (v = None \<or> target v = address_of_noop)"

text \<open>
  The second overload takes a value of any other type and returns false. What a reducer
  returns beside the model is a \<^verbatim>\<open>std::function\<close> or a callable object of its own type.
\<close>

datatype ('c, 'w) eff = as_function "('c, 'w) effect" | as_object "('c, 'w) callable"

fun is_empty_effect_of :: "('c, 'w) eff \<Rightarrow> bool" where
  "is_empty_effect_of (as_function v) = is_empty_effect v"
| "is_empty_effect_of (as_object v) = False"

text \<open>
  \<^verbatim>\<open>result_t{noop}\<close> holds a copy of \<^verbatim>\<open>noop\<close>. \<^verbatim>\<open>result_t{b}\<close> is reached with a
  \<open>b\<close> that holds a callable; the effect made from it calls that callable, and is \<open>b\<close> in
  the model.
\<close>

definition sequence :: "('c, 'w) effect \<Rightarrow> ('c, 'w) effect \<Rightarrow> ('c, 'w) effect" where
  "sequence a b =
     (if is_empty_effect a \<and> is_empty_effect b then Some noop
      else if is_empty_effect a then b
      else if is_empty_effect b then a
      else Some (procedure (\<lambda>ctx w.
             case invoke a ctx w of
               Inl e \<Rightarrow> Inl e
             | Inr w' \<Rightarrow> invoke b ctx w')))"

text \<open>The variadic overload, \<open>effects\<close> the arguments after the second.\<close>

fun sequence_n :: "('c, 'w) effect \<Rightarrow> ('c, 'w) effect \<Rightarrow> ('c, 'w) effect list \<Rightarrow> ('c, 'w) effect" where
  "sequence_n a b [] = sequence a b"
| "sequence_n a b (e # effects) = sequence_n (sequence a b) e effects"

text \<open>
  Running a list of effects in order, each on the state the one before it left; an
  exception ends the run.
\<close>

fun invoke_all :: "('c, 'w) effect list \<Rightarrow> 'c \<Rightarrow> 'w \<Rightarrow> error + 'w" where
  "invoke_all [] ctx w = Inr w"
| "invoke_all (e # es) ctx w =
     (case invoke e ctx w of Inl x \<Rightarrow> Inl x | Inr w' \<Rightarrow> invoke_all es ctx w')"

subsection \<open>has\_effect, invoke\_reducer\<close>

text \<open>
  \<^verbatim>\<open>has_effect_v\<close> is decided from the type the reducer returns: a model alone, or a pair
  whose second component converts to an effect. The two kinds of reducer are the two
  constructors; a reducer, like every callable, acts on the state and may throw.
\<close>

datatype ('m, 'a, 'c, 'w) reducer =
    plain "'m \<Rightarrow> 'a \<Rightarrow> 'w \<Rightarrow> error + 'm \<times> 'w"
  | effectful "'m \<Rightarrow> 'a \<Rightarrow> 'w \<Rightarrow> error + ('m \<times> ('c, 'w) eff) \<times> 'w"

fun has_effect_v :: "('m, 'a, 'c, 'w) reducer \<Rightarrow> bool" where
  "has_effect_v (plain r) = False"
| "has_effect_v (effectful r) = True"

fun invoke_reducer ::
  "('m, 'a, 'c, 'w) reducer \<Rightarrow> 'm \<Rightarrow> 'a \<Rightarrow> (('c, 'w) eff \<Rightarrow> 'w \<Rightarrow> error + 'w) \<Rightarrow> 'w
     \<Rightarrow> error + 'm \<times> 'w" where
  "invoke_reducer (effectful reducer) model act handler w =
     (case reducer model act w of
        Inl e \<Rightarrow> Inl e
      | Inr ((new_model, effect), w1) \<Rightarrow>
          if \<not> is_empty_effect_of effect
          then (case handler effect w1 of
                  Inl e \<Rightarrow> Inl e
                | Inr w2 \<Rightarrow> Inr (new_model, w2))
          else Inr (new_model, w1))"
| "invoke_reducer (plain reducer) model act handler w = reducer model act w"

subsection \<open>Sample callables\<close>

text \<open>
  Recorders: the state is a log of pairs, who was called and with what. \<open>record_call\<close> is
  an effect that logs the context it is given, \<open>record_handler\<close> an action handler that
  logs the action, \<open>record_effect\<close> an effect handler that logs whether the effect it is
  given is an empty one, \<open>counting_reducer\<close> a reducer that logs the action, adds one to
  the model and returns the given effect. \<open>cast_variant\<close> wraps a value into the type
  it is converted to.
\<close>

type_synonym log = "(string \<times> string) list"

definition record_call :: "string \<Rightarrow> (string, log) effect" where
  "record_call name = Some (procedure (\<lambda>ctx w. Inr (w @ [(name, ctx)])))"

definition record_handler :: "string \<Rightarrow> string \<Rightarrow> log \<Rightarrow> error + log" where
  "record_handler name = (\<lambda>act w. Inr (w @ [(name, act)]))"

definition record_effect :: "(string, log) eff \<Rightarrow> log \<Rightarrow> error + log" where
  "record_effect e w =
     Inr (w @ [(''handler'', if is_empty_effect_of e then ''empty'' else ''non-empty'')])"

definition counting_reducer ::
  "(string, log) eff \<Rightarrow> nat \<Rightarrow> string \<Rightarrow> log \<Rightarrow> error + (nat \<times> (string, log) eff) \<times> log" where
  "counting_reducer e model act w = Inr ((model + 1, e), w @ [(''reducer'', act)])"

definition plain_reducer :: "nat \<Rightarrow> string \<Rightarrow> log \<Rightarrow> error + nat \<times> log" where
  "plain_reducer model act w = Inr (model + 1, w @ [(''reducer'', act)])"

definition cast_variant :: "string \<Rightarrow> string \<Rightarrow> string \<Rightarrow> string" where
  "cast_variant A B act = B @ ''{'' @ act @ ''}''"

text \<open>
  A context over \<^verbatim>\<open>actions<any_action, action_A>\<close> with a recording handler for each,
  the context over \<^verbatim>\<open>actions<action_A, action_B>\<close> converted from it, and a dispatcher
  with no handlers.
\<close>

definition broad_context :: "(string, string, log, unit) context" where
  "broad_context =
     \<lparr>deps = (),
      dispatcher_m = [(''any_action'', Some (record_handler ''on_any'')),
                      (''action_A'', Some (record_handler ''on_A''))],
      loop_m = Some 0\<rparr>"

definition narrowed_context :: "(string, string, log, unit) context" where
  "narrowed_context =
     \<lparr>deps = (),
      dispatcher_m =
        [(''action_A'', function_from cast_variant ''action_A'' ''any_action''
                          (Some (record_handler ''on_any''))),
         (''action_B'', function_from cast_variant ''action_B'' ''any_action''
                          (Some (record_handler ''on_any'')))],
      loop_m = Some 0\<rparr>"

definition idle_dispatcher :: "(string, string, log) dispatcher" where
  "idle_dispatcher = dispatcher_default [''any_action'', ''action_A'']"

text \<open>
  A converter that wraps every action into the variant, and the context over
  \<^verbatim>\<open>actions<action_A, action_B>\<close> converted with it from \<open>broad_context\<close>; the
  default-constructed context over that domain, and the context over it constructed from
  \<open>idle_dispatcher\<close> and a second loop on a heap that has one object; the
  default-constructed context over \<^verbatim>\<open>action_A\<close>.
\<close>

definition wrap_in_variant :: "(string, string) converter" where
  "wrap_in_variant A = (''any_action'', \<lambda>act. cast_variant A ''any_action'' act)"

definition lifted_context :: "(string, string, log, unit) context" where
  "lifted_context =
     \<lparr>deps = (),
      dispatcher_m =
        [(''action_A'', Some (\<lambda>act w. function_call (Some (record_handler ''on_any''))
            (implicit_conversion cast_variant ''any_action'' ''any_action''
               (snd (wrap_in_variant ''action_A'') act)) w)),
         (''action_B'', Some (\<lambda>act w. function_call (Some (record_handler ''on_any''))
            (implicit_conversion cast_variant ''any_action'' ''any_action''
               (snd (wrap_in_variant ''action_B'') act)) w))],
      loop_m = Some 0\<rparr>"

definition null_context :: "(string, string, log, unit) context" where
  "null_context =
     \<lparr>deps = (), dispatcher_m = [(''action_A'', None), (''action_B'', None)], loop_m = None\<rparr>"

definition fresh_context :: "(string, string, log, unit) context" where
  "fresh_context =
     \<lparr>deps = (), dispatcher_m = [(''action_A'', None), (''action_B'', None)],
      loop_m = Some 1\<rparr>"

definition single_context :: "(string, string, log, unit) context" where
  "single_context = \<lparr>deps = (), dispatcher_m = [(''action_A'', None)], loop_m = None\<rparr>"

text \<open>
  A context over the domain of \<open>broad_context\<close> as a move may leave it, and two contexts
  of one type whose deps are named by a string: one default-constructed, one that a store
  made with a handler and a loop.
\<close>

definition moved_from_context :: "(string, string, log, unit) context" where
  "moved_from_context = \<lparr>deps = (), dispatcher_m = idle_dispatcher, loop_m = None\<rparr>"

definition unset_context :: "(string, string, log, string) context" where
  "unset_context =
     \<lparr>deps = ''no services'', dispatcher_m = [(''action_A'', None)], loop_m = None\<rparr>"

definition store_context :: "(string, string, log, string) context" where
  "store_context =
     \<lparr>deps = ''store services'',
      dispatcher_m = [(''action_A'', Some (record_handler ''on_A''))],
      loop_m = Some 0\<rparr>"

text \<open>
  Two constructions: a conversion, behind a copy, of a context constructed from a loop,
  and the same over a default-constructed context.
\<close>

definition live_construction :: "(string, string, log, unit, string) construction" where
  "live_construction =
     by_conversion [''action_A'']
       (by_copy (by_loop [''any_action'', ''action_A''] idle_dispatcher ''second_loop'' ()))"

definition null_construction :: "(string, string, log, unit, string) construction" where
  "null_construction =
     by_conversion [''action_A''] (by_copy (by_default [''any_action'', ''action_A''] ()))"

section \<open>Properties\<close>

subsection \<open>Merging action domains\<close>

lemma has_convertible_iff: "has_convertible conv seq x \<longleftrightarrow> (\<exists>t\<in>set seq. conv x t)"
  by (auto simp: has_convertible_def find_None_iff)

lemma remove_convertibles_dead:
  "\<not> has_convertible conv acc x \<Longrightarrow> remove_convertibles conv acc x = acc"
  by (simp add: has_convertible_iff remove_convertibles_def)

lemma merge_step_keep_or_append: "merge_step conv acc x = keep_or_append conv acc x"
  by (simp add: merge_step_def keep_or_append_def remove_convertibles_dead)
     (simp add: has_convertible_iff list_ex_iff)

lemma merge_step_prefix: "take (length acc) (merge_step conv acc x) = acc"
  by (simp add: merge_step_def remove_convertibles_dead)

lemma merge_result_prefix: "take (length a2) (merge_result conv a1 a2) = a2"
unfolding merge_result_def
proof (induction a1 arbitrary: a2)
  case Nil
  show ?case by simp
next
  case (Cons x a1)
  let ?s = "merge_step conv a2 x"
  let ?r = "fold (\<lambda>x acc. merge_step conv acc x) a1 ?s"
  have "take (length ?s) ?r = ?s"
    by (rule Cons.IH)
  then have "take (length a2) (take (length ?s) ?r) = take (length a2) ?s"
    by simp
  moreover have "length a2 \<le> length ?s"
    by (simp add: merge_step_def remove_convertibles_dead)
  ultimately show ?case
    by (simp add: merge_step_prefix min_absorb1)
qed

lemma merge_result_nonempty: "a2 \<noteq> [] \<Longrightarrow> merge_result conv a1 a2 \<noteq> []"
  using merge_result_prefix [of a2 conv a1] by auto

lemma merge_result_keeps: "set a2 \<subseteq> set (merge_result conv a1 a2)"
  using merge_result_prefix [of a2 conv a1] by (metis set_take_subset)

lemma merge_result_absorbs:
  "x \<in> set a1 \<Longrightarrow> conv x x \<Longrightarrow> \<exists>t\<in>set (merge_result conv a1 a2). conv x t"
proof (induction a1 arbitrary: a2)
  case Nil
  then show ?case by simp
next
  case (Cons y a1)
  have step: "merge_result conv (y # a1) a2 = merge_result conv a1 (merge_step conv a2 y)"
    by (simp add: merge_result_def)
  show ?case
  proof (cases "x = y")
    case True
    have "\<exists>t\<in>set (merge_step conv a2 y). conv x t"
      using True Cons.prems(2)
      by (auto simp: merge_step_def has_convertible_iff remove_convertibles_def)
    then show ?thesis
      using merge_result_keeps [of "merge_step conv a2 y" conv a1] step by auto
  next
    case False
    then have "x \<in> set a1" using Cons.prems(1) by simp
    then show ?thesis using Cons.IH Cons.prems(2) step by simp
  qed
qed

lemma merge_actions_aux_members:
  assumes "a1 \<noteq> []" and "a2 \<noteq> []"
  shows "\<exists>D3. merge_actions_aux conv a1 a2 = Inr D3 \<and> as_actions_t D3 = merge_result conv a1 a2"
proof -
  let ?r = "merge_result conv a1 a2"
  have ne: "?r \<noteq> []" using assms(2) by (rule merge_result_nonempty)
  show ?thesis
  proof (cases "length ?r = 1")
    case True
    then have "[?r ! 0] = ?r" by (cases ?r) auto
    then show ?thesis using assms ne True by (simp add: merge_actions_aux_def Let_def)
  next
    case False
    then show ?thesis using assms ne by (simp add: merge_actions_aux_def Let_def)
  qed
qed

text \<open>
  Claim C1, as stated, at a type that does not convert to itself: merging the domain of
  \<open>''pinned''\<close> into the domain of \<open>''int''\<close> appends \<open>''pinned''\<close>, which converts to
  neither member of the result.
\<close>

theorem merge_pinned_counterexample:
  "merge_actions_t conv_pinned (action ''pinned'') (action ''int'')
     = Inr (actions [''int'', ''pinned''])
   \<and> \<not> conv_pinned ''pinned'' ''int'' \<and> \<not> conv_pinned ''pinned'' ''pinned''"
  by (simp add: conv_pinned_def merge_actions_t_def merge_actions_aux_def merge_result_def
        merge_step_def has_convertible_def remove_convertibles_def)

text \<open>
  Claim C1, amended: for all non-empty action domains \<open>D1\<close> and \<open>D2\<close> the merge succeeds
  and is non-empty; and when every member type of \<open>D1\<close> and \<open>D2\<close> converts to itself, every
  member of \<open>D1\<close> or of \<open>D2\<close> converts into some member of the merged result.
\<close>

theorem merge_actions_covers:
  assumes "as_actions_t D1 \<noteq> []" and "as_actions_t D2 \<noteq> []"
  shows "\<exists>D3. merge_actions_t conv D1 D2 = Inr D3 \<and> as_actions_t D3 \<noteq> [] \<and>
           ((\<forall>t \<in> set (as_actions_t D1) \<union> set (as_actions_t D2). conv t t) \<longrightarrow>
            (\<forall>x \<in> set (as_actions_t D1) \<union> set (as_actions_t D2).
               \<exists>t \<in> set (as_actions_t D3). conv x t))"
proof -
  let ?a1 = "as_actions_t D1" and ?a2 = "as_actions_t D2"
  obtain D3 where D3: "merge_actions_aux conv ?a1 ?a2 = Inr D3"
      "as_actions_t D3 = merge_result conv ?a1 ?a2"
    using merge_actions_aux_members [OF assms] by blast
  have ne: "as_actions_t D3 \<noteq> []"
    using D3(2) merge_result_nonempty [OF assms(2)] by simp
  have cover: "\<exists>t \<in> set (as_actions_t D3). conv x t"
    if refl: "\<forall>t \<in> set ?a1 \<union> set ?a2. conv t t" and x: "x \<in> set ?a1 \<union> set ?a2" for x
  proof (cases "x \<in> set ?a1")
    case True
    then show ?thesis using merge_result_absorbs [of x ?a1 conv ?a2] refl D3(2) by auto
  next
    case False
    then have "x \<in> set ?a2" using x by simp
    then have "x \<in> set (as_actions_t D3)"
      using merge_result_keeps [of ?a2 conv ?a1] D3(2) by auto
    then show ?thesis using refl x by blast
  qed
  show ?thesis
    using D3(1) ne cover by (auto simp: merge_actions_t_def)
qed

text \<open>
  Claim C1 at the domains of the header's example: \<open>action_A\<close> and \<open>action_B\<close> are absorbed
  by the variant, \<open>int\<close> is added.
\<close>

theorem merge_actions_covers_witness:
  "as_actions_t (actions [''action_A'', ''int'', ''action_B'']) \<noteq> [] \<and>
   as_actions_t (action ''any_action'') \<noteq> [] \<and>
   list_all (\<lambda>t. conv_variant t t) [''action_A'', ''int'', ''action_B'', ''any_action''] \<and>
   merge_actions_t conv_variant (actions [''action_A'', ''int'', ''action_B''])
       (action ''any_action'')
     = Inr (actions [''any_action'', ''int'']) \<and>
   list_all (\<lambda>x. list_ex (\<lambda>t. conv_variant x t) [''any_action'', ''int''])
     [''action_A'', ''int'', ''action_B'', ''any_action'']"
  using merge_actions_covers [of "actions [''action_A'', ''int'', ''action_B'']"
          "action ''any_action''" conv_variant]
  by (simp add: conv_variant_def merge_actions_t_def merge_actions_aux_def merge_result_def
        merge_step_def has_convertible_def remove_convertibles_def)

text \<open>
  Claim C2: whenever the fold takes the append branch, \<open>remove_convertibles\<close> removes
  nothing, so a step of the fold is the keep-or-append step of the specification and the
  accumulator it was given is a prefix of the one it returns; for non-empty domains the
  merge is the keep-or-append merge, and the second domain is a prefix of the result: no
  member of the accumulator is ever removed or replaced, a later member of the first
  domain is absorbed by the first-seen one it converts to.
\<close>

theorem merge_is_keep_or_append:
  "(\<not> has_convertible conv acc x \<longrightarrow> remove_convertibles conv acc x = acc) \<and>
   merge_step conv acc x = keep_or_append conv acc x \<and>
   take (length acc) (merge_step conv acc x) = acc \<and>
   (as_actions_t D1 \<noteq> [] \<and> as_actions_t D2 \<noteq> [] \<longrightarrow>
      merge_actions_t conv D1 D2 = Inr (merge_spec conv D1 D2) \<and>
      take (length (as_actions_t D2)) (as_actions_t (merge_spec conv D1 D2)) = as_actions_t D2)"
proof -
  have fold_eq: "merge_result conv a1 a2 = fold (\<lambda>x acc. keep_or_append conv acc x) a1 a2"
    for a1 a2
    by (simp add: merge_result_def merge_step_keep_or_append)
  have top: "merge_actions_t conv D1 D2 = Inr (merge_spec conv D1 D2) \<and>
      take (length (as_actions_t D2)) (as_actions_t (merge_spec conv D1 D2)) = as_actions_t D2"
    if ne: "as_actions_t D1 \<noteq> []" "as_actions_t D2 \<noteq> []"
  proof -
    let ?r = "merge_result conv (as_actions_t D1) (as_actions_t D2)"
    have r: "?r \<noteq> []" using ne(2) by (rule merge_result_nonempty)
    have hd0: "?r ! 0 = hd ?r" using r by (simp add: hd_conv_nth)
    have eq: "merge_actions_t conv D1 D2 = Inr (merge_spec conv D1 D2)"
      using ne r hd0
      by (simp add: merge_actions_t_def merge_actions_aux_def merge_spec_def Let_def fold_eq)
    obtain D3 where D3: "merge_actions_aux conv (as_actions_t D1) (as_actions_t D2) = Inr D3"
      "as_actions_t D3 = ?r"
      using merge_actions_aux_members [OF ne] by blast
    have "D3 = merge_spec conv D1 D2" using D3(1) eq by (simp add: merge_actions_t_def)
    then show ?thesis
      using eq D3(2) merge_result_prefix [of "as_actions_t D2" conv "as_actions_t D1"] by simp
  qed
  have dead: "\<not> has_convertible conv acc x \<longrightarrow> remove_convertibles conv acc x = acc"
    by (simp add: remove_convertibles_dead)
  show ?thesis
    using dead merge_step_keep_or_append [of conv acc x] merge_step_prefix [of acc conv x] top
    by blast
qed

text \<open>
  Claim C2 at the example: \<open>int\<close> converts to no member of the accumulator, nothing is
  removed and it is appended; merging the variant into the three types keeps all three.
\<close>

theorem merge_is_keep_or_append_witness:
  "\<not> has_convertible conv_variant [''any_action''] ''int'' \<and>
   remove_convertibles conv_variant [''any_action''] ''int'' = [''any_action''] \<and>
   merge_step conv_variant [''any_action''] ''int'' = [''any_action'', ''int''] \<and>
   as_actions_t (action ''any_action'') \<noteq> [] \<and>
   as_actions_t (actions [''action_A'', ''int'', ''action_B'']) \<noteq> [] \<and>
   merge_actions_t conv_variant (action ''any_action'')
       (actions [''action_A'', ''int'', ''action_B''])
     = Inr (actions [''action_A'', ''int'', ''action_B'', ''any_action'']) \<and>
   merge_spec conv_variant (action ''any_action'') (actions [''action_A'', ''int'', ''action_B''])
     = actions [''action_A'', ''int'', ''action_B'', ''any_action'']"
  using merge_is_keep_or_append [of conv_variant "[''any_action'']" "''int''"
          "action ''any_action''" "actions [''action_A'', ''int'', ''action_B'']"]
  by (simp add: conv_variant_def merge_spec_def keep_or_append_def has_convertible_def)

subsection \<open>Effects\<close>

lemma is_empty_effect_cases: "is_empty_effect v \<longleftrightarrow> v = None"
  by (auto simp: is_empty_effect_def target_def split: option.splits callable.splits)

lemma sequence_both:
  "\<not> is_empty_effect a \<Longrightarrow> \<not> is_empty_effect b \<Longrightarrow>
   invoke (sequence a b) C w = (case invoke a C w of Inl e \<Rightarrow> Inl e | Inr w' \<Rightarrow> invoke b C w')"
  by (simp add: sequence_def invoke_def)

lemma invoke_all_sequence:
  "invoke_all (filter (\<lambda>e. \<not> is_empty_effect e) (sequence a b # es)) C w
   = invoke_all (filter (\<lambda>e. \<not> is_empty_effect e) (a # b # es)) C w"
proof (cases "is_empty_effect a")
  case ea: True
  show ?thesis
  proof (cases "is_empty_effect b")
    case True
    then show ?thesis using ea
      by (simp add: sequence_def is_empty_effect_cases invoke_def)
  next
    case False
    then show ?thesis using ea by (simp add: sequence_def)
  qed
next
  case na: False
  show ?thesis
  proof (cases "is_empty_effect b")
    case True
    then show ?thesis using na by (simp add: sequence_def)
  next
    case False
    have "\<not> is_empty_effect (sequence a b)"
      using na False by (simp add: sequence_def is_empty_effect_cases)
    then show ?thesis using na False
      by (simp add: sequence_both split: sum.splits)
  qed
qed

lemma sequence_n_filter:
  "invoke (sequence_n a b effects) C w
   = invoke_all (filter (\<lambda>e. \<not> is_empty_effect e) (a # b # effects)) C w"
proof (induction effects arbitrary: a b)
  case Nil
  have "invoke (sequence a b) C w
        = invoke_all (filter (\<lambda>e. \<not> is_empty_effect e) [sequence a b]) C w"
    by (auto simp: sequence_def is_empty_effect_cases invoke_def split: sum.splits)
  then show ?case using invoke_all_sequence [of a b "[]" C w] by simp
next
  case (Cons e effects)
  have "invoke (sequence_n a b (e # effects)) C w
        = invoke_all (filter (\<lambda>e. \<not> is_empty_effect e) (sequence a b # e # effects)) C w"
    using Cons.IH [of "sequence a b" e] by simp
  then show ?case using invoke_all_sequence [of a b "e # effects" C w] by simp
qed

text \<open>
  Claim C3: for non-empty effects \<open>a\<close> and \<open>b\<close>, invoking \<open>sequence a b\<close> with a context
  \<open>C\<close> calls \<open>a\<close> with \<open>C\<close> and then, on the state \<open>a\<close> left, \<open>b\<close> with \<open>C\<close>, within the same
  call (an exception leaving \<open>a\<close> ends the call); for effects that hold the procedures
  \<open>f\<close> and \<open>g\<close> that is the body \<open>f\<close> and then the body \<open>g\<close>. The variadic \<open>sequence\<close>
  folds pairwise from the left, and invoking its result runs the non-empty ones among its
  arguments in the order they were given.
\<close>

theorem sequence_runs_in_order:
  "(\<not> is_empty_effect a \<and> \<not> is_empty_effect b \<longrightarrow>
      invoke (sequence a b) C w =
        (case invoke a C w of Inl e \<Rightarrow> Inl e | Inr w' \<Rightarrow> invoke b C w')) \<and>
   invoke (sequence (Some (procedure f)) (Some (procedure g))) C w =
     (case f C w of Inl e \<Rightarrow> Inl e | Inr w' \<Rightarrow> g C w') \<and>
   sequence_n a b (e # effects) = sequence_n (sequence a b) e effects \<and>
   invoke (sequence_n a b effects) C w =
     invoke_all (filter (\<lambda>e. \<not> is_empty_effect e) (a # b # effects)) C w"
proof -
  let ?F = "Some (procedure f)" and ?G = "Some (procedure g)"
  have "invoke (sequence ?F ?G) C w =
     (case invoke ?F C w of Inl e \<Rightarrow> Inl e | Inr w' \<Rightarrow> invoke ?G C w')"
    by (rule sequence_both) (simp_all add: is_empty_effect_cases)
  moreover have "invoke ?F C w = f C w" and "\<And>w'. invoke ?G C w' = g C w'"
    by (simp_all add: invoke_def)
  ultimately have "invoke (sequence ?F ?G) C w =
     (case f C w of Inl e \<Rightarrow> Inl e | Inr w' \<Rightarrow> g C w')"
    by (simp split: sum.splits)
  then show ?thesis
    using sequence_both [of a b C w] sequence_n_filter [of a b effects C w] by simp
qed

text \<open>
  Claim C3 with recorders: the log shows \<open>a\<close> before \<open>b\<close>, each called once with \<open>C\<close>, and
  the five-argument sequence in the order of its arguments.
\<close>

theorem sequence_runs_in_order_witness:
  "\<not> is_empty_effect (record_call ''a'') \<and> \<not> is_empty_effect (record_call ''b'') \<and>
   invoke (sequence (record_call ''a'') (record_call ''b'')) ''C'' []
     = Inr [(''a'', ''C''), (''b'', ''C'')] \<and>
   invoke (sequence_n (record_call ''a'') (record_call ''b'')
             [record_call ''c'', Some noop, record_call ''d'']) ''C'' []
     = Inr [(''a'', ''C''), (''b'', ''C''), (''c'', ''C''), (''d'', ''C'')]"
  using sequence_runs_in_order [where a = "record_call ''a''" and b = "record_call ''b''"
          and C = "''C''" and w = "[]"
          and f = "\<lambda>ctx w. Inr (w @ [(''a'', ctx)])" and g = "\<lambda>ctx w. Inr (w @ [(''b'', ctx)])"
          and e = "Some noop" and effects = "[record_call ''c'', Some noop, record_call ''d'']"]
  by (simp add: record_call_def is_empty_effect_cases invoke_def)

text \<open>
  Claim C4, as stated, at the effect that holds no callable: it is empty, and \<open>sequence\<close>
  of it and itself is an effect that holds a copy of \<^verbatim>\<open>noop\<close>, which returns when
  invoked, while invoking the null effect throws \<open>bad_function_call\<close>; and
  \<open>is_empty_effect\<close> is false of that result.
\<close>

theorem sequence_null_counterexample:
  "is_empty_effect (None :: (unit, nat) effect) \<and>
   invoke (sequence None None) () (0::nat) = Inr 0 \<and>
   invoke None () (0::nat) = Inl bad_function_call \<and>
   \<not> is_empty_effect (sequence None None :: (unit, nat) effect)"
  by (simp add: sequence_def is_empty_effect_def target_def invoke_def)

text \<open>
  Claim C4, amended: for every effect \<open>e\<close> that holds a callable and every empty effect
  \<open>x\<close>, \<open>sequence x e\<close> and \<open>sequence e x\<close> do, invoked with any context, exactly what \<open>e\<close>
  does.
\<close>

theorem sequence_empty_identity:
  "is_empty_effect x \<and> (e :: ('c, 'w) effect) \<noteq> None \<longrightarrow>
     invoke (sequence x e) = invoke e \<and> invoke (sequence e x) = invoke e"
  by (auto simp: sequence_def is_empty_effect_cases)

text \<open>Claim C4 at the null effect and a recorder.\<close>

theorem sequence_empty_identity_witness:
  "is_empty_effect (None :: (string, log) effect) \<and>
   record_call ''e'' \<noteq> None \<and>
   invoke (sequence None (record_call ''e'')) = invoke (record_call ''e'') \<and>
   invoke (sequence (record_call ''e'') None) = invoke (record_call ''e'') \<and>
   invoke (sequence None (record_call ''e'')) ''C'' [] = Inr [(''e'', ''C'')]"
  using sequence_empty_identity [of "None" "record_call ''e''"]
  by (simp add: record_call_def is_empty_effect_cases invoke_def)

text \<open>
  Claim C5 at an effect initialised from \<^verbatim>\<open>noop\<close>: the pointer that \<open>target\<close> gives is
  the address of the copy the effect stores, not the address of \<^verbatim>\<open>noop\<close>, and
  \<open>is_empty_effect\<close> is false of it, as of every effect that holds a callable, though
  calling it does nothing.
\<close>

theorem is_empty_effect_noop_copy:
  "target (Some noop :: ('c, 'w) effect) = address_of_stored_copy \<and>
   is_empty_effect (Some noop :: ('c, 'w) effect) = False \<and>
   invoke (Some noop) (ctx :: 'c) (w :: 'w) = Inr w \<and>
   is_empty_effect e = (e = (None :: ('c, 'w) effect))"
  by (simp add: is_empty_effect_cases target_def invoke_def)

subsection \<open>Invoking a reducer\<close>

text \<open>
  Claim C6: with an effect-bearing reducer that returns the new model and an effect,
  \<open>invoke_reducer\<close> is that one call of the reducer followed, when the effect is not empty
  by \<open>is_empty_effect\<close>, by one call of the handler with the effect, and by no call of the
  handler when it is empty; the new model is returned. With a reducer that bears no
  effect the result is the reducer's, whatever the handler.
\<close>

theorem invoke_reducer_calls_handler:
  "(reducer model act w = Inr ((new_model, effect), w1) \<longrightarrow>
      invoke_reducer (effectful reducer) model act handler w =
        (if is_empty_effect_of effect then Inr (new_model, w1)
         else (case handler effect w1 of
                 Inl e \<Rightarrow> Inl e
               | Inr w2 \<Rightarrow> Inr (new_model, w2)))) \<and>
   invoke_reducer (plain r) model act handler w = r model act w"
  by simp

text \<open>
  Claim C6 with recorders: the reducer is logged once; the handler once for a recording
  effect and once for an effect that holds a copy of \<^verbatim>\<open>noop\<close>, neither of which
  \<open>is_empty_effect\<close> finds empty, and not at all for the null effect or for a plain reducer.
\<close>

theorem invoke_reducer_calls_handler_witness:
  "counting_reducer (as_function (record_call ''e'')) 0 ''inc'' []
     = Inr ((1, as_function (record_call ''e'')), [(''reducer'', ''inc'')]) \<and>
   invoke_reducer (effectful (counting_reducer (as_function (record_call ''e''))))
       0 ''inc'' record_effect []
     = Inr (1, [(''reducer'', ''inc''), (''handler'', ''non-empty'')]) \<and>
   counting_reducer (as_function None) 0 ''inc'' []
     = Inr ((1, as_function None), [(''reducer'', ''inc'')]) \<and>
   invoke_reducer (effectful (counting_reducer (as_function None)))
       0 ''inc'' record_effect []
     = Inr (1, [(''reducer'', ''inc'')]) \<and>
   counting_reducer (as_function (Some noop)) 0 ''inc'' []
     = Inr ((1, as_function (Some noop)), [(''reducer'', ''inc'')]) \<and>
   invoke_reducer (effectful (counting_reducer (as_function (Some noop))))
       0 ''inc'' record_effect []
     = Inr (1, [(''reducer'', ''inc''), (''handler'', ''non-empty'')]) \<and>
   invoke_reducer (plain plain_reducer) 0 ''inc'' record_effect []
     = Inr (1, [(''reducer'', ''inc'')])"
  using invoke_reducer_calls_handler [of "counting_reducer (as_function (record_call ''e''))"
          0 "''inc''" "[]" 1 "as_function (record_call ''e'')" "[(''reducer'', ''inc'')]"
          record_effect plain_reducer]
        invoke_reducer_calls_handler [of "counting_reducer (as_function None)"
          0 "''inc''" "[]" 1 "as_function None" "[(''reducer'', ''inc'')]"
          record_effect plain_reducer]
        invoke_reducer_calls_handler [of "counting_reducer (as_function (Some noop))"
          0 "''inc''" "[]" 1 "as_function (Some noop)" "[(''reducer'', ''inc'')]"
          record_effect plain_reducer]
  by (simp add: counting_reducer_def plain_reducer_def record_effect_def record_call_def
        is_empty_effect_cases)

subsection \<open>Dispatching\<close>

lemma function_call_from:
  "function_call (function_from cast A B f) act w
   = function_call f (implicit_conversion cast A B act) w"
  by (cases f) (simp_all add: function_from_def function_call_def)

lemma expand_map_of:
  "expand (map g xs) = Inr d \<Longrightarrow> (\<And>A r. g A = Inr r \<Longrightarrow> fst r = A) \<Longrightarrow> A \<in> set xs \<Longrightarrow>
   \<exists>r. g A = Inr r \<and> map_of d A = Some (snd r)"
proof (induction xs arbitrary: d)
  case Nil
  then show ?case by simp
next
  case (Cons x xs)
  from Cons.prems(1) obtain r d' where r: "g x = Inr r"
      and d': "expand (map g xs) = Inr d'" and d: "d = r # d'"
    by (cases "g x"; cases "expand (map g xs)") auto
  have fr: "fst r = x" using Cons.prems(2) r by blast
  show ?case
  proof (cases "A = x")
    case True
    then show ?thesis using r d fr by (cases r) auto
  next
    case False
    then have "A \<in> set xs" using Cons.prems(3) by simp
    then obtain r' where "g A = Inr r'" "map_of d' A = Some (snd r')"
      using Cons.IH [OF d' Cons.prems(2)] by blast
    then show ?thesis using d fr False by (cases r) auto
  qed
qed

lemma dispatcher_converting_call:
  assumes "dispatcher_converting conv cast Actions other = Inr d" and "A \<in> set Actions"
  shows "\<exists>B f. find_convertible_action_aux conv A (map fst other) = Inr B \<and>
           map_of other B = Some f \<and>
           dispatcher_call d (A, act) w = function_call f (implicit_conversion cast A B act) w"
proof -
  let ?g = "\<lambda>A. case find_convertible_action_aux conv A (map fst other) of
         Inl e \<Rightarrow> Inl e
       | Inr B \<Rightarrow> (case map_of other B of
                    None \<Rightarrow> Inl no_convertible_action
                  | Some f \<Rightarrow> Inr (A, function_from cast A B f))"
  have ex: "expand (map ?g Actions) = Inr d"
    using assms(1) by (simp add: dispatcher_converting_def)
  have fst_ok: "\<And>A r. ?g A = Inr r \<Longrightarrow> fst r = A"
    by (auto split: sum.splits option.splits)
  obtain r where r: "?g A = Inr r" "map_of d A = Some (snd r)"
    using expand_map_of [OF ex fst_ok assms(2)] by blast
  from r(1) obtain B f where B: "find_convertible_action_aux conv A (map fst other) = Inr B"
      and f: "map_of other B = Some f" and rr: "r = (A, function_from cast A B f)"
    by (auto split: sum.splits option.splits)
  have "dispatcher_call d (A, act) w = function_call f (implicit_conversion cast A B act) w"
    using r(2) rr by (simp add: dispatcher_call_def function_call_from)
  then show ?thesis using B f by blast
qed

text \<open>
  Claim C7: let a context over a domain be converted, by the converting constructor, to a
  context over other member types \<open>Actions\<close> (a dispatcher over the same member types is
  copied, not converted). Dispatching an action of a member type \<open>A\<close> of \<open>Actions\<close> on the
  converted context calls the function object \<open>f\<close> that the original dispatcher holds for
  \<open>B\<close>, the first of its member types that \<open>A\<close> converts to, with the action converted to
  \<open>B\<close>: it is dispatching the converted action on the original context.
\<close>

theorem narrowed_dispatch_forwards:
  assumes "context_converting conv cast deps_from Actions ctx h = Inr (narrowed, h')"
      and "map fst (dispatcher_m ctx) \<noteq> Actions"
      and "A \<in> set Actions"
  shows "\<exists>B f. find (\<lambda>t. conv A t) (map fst (dispatcher_m ctx)) = Some B \<and>
           map_of (dispatcher_m ctx) B = Some f \<and>
           snd (dispatch narrowed (A, act) w)
             = function_call f (implicit_conversion cast A B act) w \<and>
           snd (dispatch narrowed (A, act) w)
             = snd (dispatch ctx (B, implicit_conversion cast A B act) w)"
proof -
  from assms(1,2)
  have d: "dispatcher_converting conv cast Actions (dispatcher_m ctx)
           = Inr (dispatcher_m narrowed)"
    by (auto simp: context_converting_def dispatcher_init_def split: sum.splits)
  obtain B f where B: "find_convertible_action_aux conv A (map fst (dispatcher_m ctx)) = Inr B"
      and f: "map_of (dispatcher_m ctx) B = Some f"
      and c: "dispatcher_call (dispatcher_m narrowed) (A, act) w
              = function_call f (implicit_conversion cast A B act) w"
    using dispatcher_converting_call [OF d assms(3)] by blast
  have "find (\<lambda>t. conv A t) (map fst (dispatcher_m ctx)) = Some B"
    using B by (simp add: find_convertible_action_aux_def split: option.splits)
  then show ?thesis using f c by (auto simp: dispatch_def dispatcher_call_def)
qed

text \<open>
  Claim C7 at the example: an \<open>action_A\<close> dispatched on the context narrowed to
  \<^verbatim>\<open>actions<action_A, action_B>\<close> reaches the handler of \<open>any_action\<close>, the first member of
  the original domain it converts to, wrapped into the variant.
\<close>

theorem narrowed_dispatch_forwards_witness:
  "context_converting conv_variant cast_variant id [''action_A'', ''action_B'']
       broad_context [''main_loop'']
     = Inr (narrowed_context, [''main_loop'']) \<and>
   map fst (dispatcher_m broad_context) \<noteq> [''action_A'', ''action_B''] \<and>
   ''action_A'' \<in> set [''action_A'', ''action_B''] \<and>
   find (\<lambda>t. conv_variant ''action_A'' t) (map fst (dispatcher_m broad_context))
     = Some ''any_action'' \<and>
   snd (dispatch narrowed_context (''action_A'', ''a1'') [])
     = Inr [(''on_any'', ''any_action{a1}'')] \<and>
   snd (dispatch broad_context (''any_action'', ''any_action{a1}'') [])
     = Inr [(''on_any'', ''any_action{a1}'')]"
  using narrowed_dispatch_forwards [of conv_variant cast_variant id
          "[''action_A'', ''action_B'']" broad_context "[''main_loop'']" narrowed_context
          "[''main_loop'']" "''action_A''" "''a1''" "[]"]
  by (simp add: broad_context_def narrowed_context_def context_converting_def
        dispatcher_init_def dispatcher_converting_def find_convertible_action_aux_def
        conv_variant_def cast_variant_def record_handler_def function_from_def
        implicit_conversion_def dispatch_def dispatcher_call_def function_call_def)

text \<open>
  Claim C8: a dispatcher for two distinct action types \<open>A\<close> and \<open>B\<close>, with a handler for
  each, passes an action of type \<open>A\<close> to the handler of \<open>A\<close> and does nothing else,
  whatever the handler of \<open>B\<close> is, and an action of type \<open>B\<close> to the handler of \<open>B\<close>.
\<close>

theorem dispatcher_routes_by_type:
  assumes "dispatcher_m ctx = [(A, Some hA), (B, Some hB)]" and "A \<noteq> B"
  shows "dispatcher_call (dispatcher_m ctx) (A, act) w = hA act w \<and>
         dispatcher_call (dispatcher_m ctx) (B, act) w = hB act w \<and>
         snd (dispatch ctx (A, act) w) = hA act w \<and>
         snd (dispatch ctx (B, act) w) = hB act w"
  using assms by (simp add: dispatch_def dispatcher_call_def function_call_def)

text \<open>
  Claim C8 with recording handlers: after one dispatch the log has one entry, of the
  handler of the action's type.
\<close>

theorem dispatcher_routes_by_type_witness:
  "dispatcher_m broad_context
     = [(''any_action'', Some (record_handler ''on_any'')),
        (''action_A'', Some (record_handler ''on_A''))] \<and>
   ''any_action'' \<noteq> ''action_A'' \<and>
   snd (dispatch broad_context (''action_A'', ''a1'') []) = Inr [(''on_A'', ''a1'')] \<and>
   snd (dispatch broad_context (''any_action'', ''v1'') []) = Inr [(''on_any'', ''v1'')]"
  using dispatcher_routes_by_type [of broad_context "''any_action''"
          "record_handler ''on_any''" "''action_A''" "record_handler ''on_A''" "''v1''" "[]"]
        dispatcher_routes_by_type [of broad_context "''any_action''"
          "record_handler ''on_any''" "''action_A''" "record_handler ''on_A''" "''a1''" "[]"]
  by (simp add: broad_context_def record_handler_def)

subsection \<open>The event-loop handle of a context\<close>

text \<open>
  Claim C9, as stated, at the copy assignment that the compiler defines for the struct:
  assigning the store's context to a default-constructed context of the same type
  replaces its deps, its dispatcher and its loop handle by those of the store's context.
\<close>

theorem context_assign_counterexample:
  "context_assign unset_context store_context [''main_loop'']
     = (store_context, [''main_loop'']) \<and>
   deps unset_context \<noteq> deps store_context \<and>
   dispatcher_m unset_context \<noteq> dispatcher_m store_context \<and>
   loop_m unset_context \<noteq> loop_m store_context"
  by (simp add: context_assign_def unset_context_def store_context_def)

text \<open>
  Claim C9, amended: a context copied, moved or converted, with or without a converter,
  from a context has the loop handle of that context, and the heap is as it was; a
  default-constructed context has the null handle; the constructor from a dispatcher, an
  event loop and deps alone allocates, and its handle is the new address, which no
  earlier handle is. \<open>dispatch\<close> and \<open>loop\<close>, the member functions the header declares,
  leave the context they are called on as it was; the copy and the move assignment
  replace the deps, the dispatcher and the handle of the context assigned to by those of
  the other context, without allocating, and a move leaves its source with the null handle.
\<close>

theorem context_shares_loop_handle:
  "(context_copy ctx h = (c1, h1) \<longrightarrow> loop_m c1 = loop_m ctx \<and> h1 = h) \<and>
   (context_converting conv cast deps_from Actions ctx h = Inr (c2, h2) \<longrightarrow>
      loop_m c2 = loop_m ctx \<and> h2 = h) \<and>
   (context_converting_with conv cast deps_from Actions ctx c h = Inr (c3, h3) \<longrightarrow>
      loop_m c3 = loop_m ctx \<and> h3 = h) \<and>
   (context_default Actions d0 h = (c0, h0) \<longrightarrow> loop_m c0 = None \<and> h0 = h) \<and>
   (context_from_loop conv cast Actions dispatcher event_loop ds h = Inr (c4, h4) \<longrightarrow>
      loop_m c4 = Some (length h) \<and> h4 = h @ [event_loop] \<and>
      (\<forall>p < length h. loop_m c4 \<noteq> Some p)) \<and>
   fst (dispatch ctx act w) = ctx \<and> fst (loop ctx h) = ctx \<and>
   (context_move ctx left_dispatcher left_deps h = ((c5, s5), h5) \<longrightarrow>
      loop_m c5 = loop_m ctx \<and> loop_m s5 = None \<and> h5 = h) \<and>
   (context_assign this ctx h = (c6, h6) \<longrightarrow>
      deps c6 = deps ctx \<and> dispatcher_m c6 = dispatcher_m ctx \<and> loop_m c6 = loop_m ctx \<and>
      h6 = h) \<and>
   (context_move_assign this ctx left_dispatcher left_deps h = ((c7, s7), h7) \<longrightarrow>
      deps c7 = deps ctx \<and> dispatcher_m c7 = dispatcher_m ctx \<and> loop_m c7 = loop_m ctx \<and>
      loop_m s7 = None \<and> h7 = h)"
  by (auto simp: context_copy_def context_converting_def context_converting_with_def
        context_default_def context_from_loop_def dispatch_def loop_def
        context_move_def context_assign_def context_move_assign_def split: sum.splits)

text \<open>
  Claim C9 at the example contexts: the copy, the move, the two conversions and the
  original all hold the handle \<open>Some 0\<close> on an unchanged heap; the default-constructed
  context holds none; the context constructed from a second loop holds the address of the
  object that the heap has gained; a context assigned the original becomes the original.
\<close>

theorem context_shares_loop_handle_witness:
  "context_copy broad_context [''main_loop''] = (broad_context, [''main_loop'']) \<and>
   context_converting conv_variant cast_variant id [''action_A'', ''action_B'']
       broad_context [''main_loop'']
     = Inr (narrowed_context, [''main_loop'']) \<and>
   context_converting_with conv_variant cast_variant id [''action_A'', ''action_B'']
       broad_context wrap_in_variant [''main_loop'']
     = Inr (lifted_context, [''main_loop'']) \<and>
   context_default [''action_A'', ''action_B''] () [''main_loop'']
     = (null_context, [''main_loop'']) \<and>
   context_from_loop conv_variant cast_variant [''action_A'', ''action_B'']
       idle_dispatcher ''second_loop'' () [''main_loop'']
     = Inr (fresh_context, [''main_loop'', ''second_loop'']) \<and>
   context_move broad_context idle_dispatcher () [''main_loop'']
     = ((broad_context, moved_from_context), [''main_loop'']) \<and>
   context_assign moved_from_context broad_context [''main_loop'']
     = (broad_context, [''main_loop'']) \<and>
   context_move_assign moved_from_context broad_context idle_dispatcher () [''main_loop'']
     = ((broad_context, moved_from_context), [''main_loop'']) \<and>
   loop_m broad_context = Some 0 \<and>
   loop_m narrowed_context = Some 0 \<and>
   loop_m lifted_context = Some 0 \<and>
   loop_m null_context = None \<and>
   loop_m fresh_context = Some 1 \<and>
   loop_m moved_from_context = None \<and>
   fst (dispatch broad_context (''action_A'', ''a1'') []) = broad_context \<and>
   fst (loop broad_context [''main_loop'']) = broad_context"
  using context_shares_loop_handle [where ctx = broad_context and h = "[''main_loop'']"
          and ?c1.0 = broad_context and ?h1.0 = "[''main_loop'']"
          and conv = conv_variant and cast = cast_variant and deps_from = id
          and Actions = "[''action_A'', ''action_B'']"
          and ?c2.0 = narrowed_context and ?h2.0 = "[''main_loop'']"
          and c = wrap_in_variant and ?c3.0 = lifted_context and ?h3.0 = "[''main_loop'']"
          and ?d0.0 = "()" and ?c0.0 = null_context and ?h0.0 = "[''main_loop'']"
          and dispatcher = idle_dispatcher and event_loop = "''second_loop''" and ds = "()"
          and ?c4.0 = fresh_context and ?h4.0 = "[''main_loop'', ''second_loop'']"
          and act = "(''action_A'', ''a1'')" and w = "[]"
          and left_dispatcher = idle_dispatcher and left_deps = "()"
          and ?c5.0 = broad_context and ?s5.0 = moved_from_context
          and ?h5.0 = "[''main_loop'']"
          and this = moved_from_context
          and ?c6.0 = broad_context and ?h6.0 = "[''main_loop'']"
          and ?c7.0 = broad_context and ?s7.0 = moved_from_context
          and ?h7.0 = "[''main_loop'']"]
  by (simp add: broad_context_def narrowed_context_def lifted_context_def null_context_def
        fresh_context_def moved_from_context_def idle_dispatcher_def wrap_in_variant_def
        context_copy_def context_converting_def context_converting_with_def
        context_default_def context_from_loop_def dispatcher_default_def
        context_move_def context_assign_def context_move_assign_def
        dispatcher_init_def dispatcher_converting_def dispatcher_converting_with_def
        dispatcher_fn_aux_def find_convertible_action_aux_def conv_variant_def
        function_from_def)

lemma construct_handle:
  "construct conv cast deps_from k h = Inr (ctx, h') \<Longrightarrow>
   (from_live_loop k \<longrightarrow> (\<exists>p. loop_m ctx = Some p \<and> p < length h')) \<and>
   (\<not> from_live_loop k \<longrightarrow> loop_m ctx = None)"
proof (induction k arbitrary: ctx h')
  case (by_default Actions d0)
  then show ?case by (auto simp: context_default_def)
next
  case (by_loop Actions dispatcher event_loop ds)
  then show ?case by (auto simp: context_from_loop_def split: sum.splits)
next
  case (by_copy k)
  then show ?case by (auto simp: context_copy_def split: sum.splits)
next
  case (by_conversion Actions k)
  then show ?case by (auto simp: context_converting_def split: sum.splits)
next
  case (by_conversion_with Actions c k)
  then show ?case by (auto simp: context_converting_with_def split: sum.splits)
qed

text \<open>
  Claim C10: the handle of a default-constructed context is null, and \<open>loop\<close> on it is
  the dereference of a null pointer, which nothing checks. \<open>loop\<close> on a context
  constructed from a dispatcher and an event loop gives the object that refers to that
  loop; and for a context built by any of the constructors, \<open>loop\<close> gives an object if
  and only if the context was constructed from a dispatcher and an event loop or was
  copied or converted from such a context.
\<close>

theorem loop_valid_only_from_live_loop:
  "(context_default Actions d0 h = (c0, h0) \<longrightarrow>
      loop_m c0 = None \<and> snd (loop c0 h0) = Inl null_pointer_dereference) \<and>
   (context_from_loop conv cast Actions dispatcher event_loop ds h = Inr (c1, h1) \<longrightarrow>
      snd (loop c1 h1) = Inr event_loop) \<and>
   (construct conv cast deps_from k h = Inr (ctx, h') \<longrightarrow>
      ((\<exists>l. snd (loop ctx h') = Inr l) \<longleftrightarrow> from_live_loop k))"
proof -
  have a: "context_default Actions d0 h = (c0, h0) \<longrightarrow>
      loop_m c0 = None \<and> snd (loop c0 h0) = Inl null_pointer_dereference"
    by (auto simp: context_default_def loop_def)
  have b: "context_from_loop conv cast Actions dispatcher event_loop ds h = Inr (c1, h1) \<longrightarrow>
      snd (loop c1 h1) = Inr event_loop"
    by (auto simp: context_from_loop_def loop_def split: sum.splits)
  have c: "construct conv cast deps_from k h = Inr (ctx, h') \<longrightarrow>
      ((\<exists>l. snd (loop ctx h') = Inr l) \<longleftrightarrow> from_live_loop k)"
    using construct_handle [of conv cast deps_from k h ctx h']
    by (cases "from_live_loop k") (auto simp: loop_def)
  show ?thesis using a b c by blast
qed

text \<open>
  Claim C10 at the example: \<open>loop\<close> fails on the default-constructed context and on the
  context converted from a copy of one, and gives the second loop on the context
  constructed from it and on the context converted from a copy of that.
\<close>

theorem loop_valid_only_from_live_loop_witness:
  "context_default [''action_A'', ''action_B''] () [''main_loop'']
     = (null_context, [''main_loop'']) \<and>
   snd (loop null_context [''main_loop'']) = Inl null_pointer_dereference \<and>
   context_from_loop conv_variant cast_variant [''action_A'', ''action_B'']
       idle_dispatcher ''second_loop'' () [''main_loop'']
     = Inr (fresh_context, [''main_loop'', ''second_loop'']) \<and>
   snd (loop fresh_context [''main_loop'', ''second_loop'']) = Inr ''second_loop'' \<and>
   construct conv_variant cast_variant id live_construction [''main_loop'']
     = Inr (single_context\<lparr>loop_m := Some 1\<rparr>, [''main_loop'', ''second_loop'']) \<and>
   from_live_loop live_construction \<and>
   snd (loop (single_context\<lparr>loop_m := Some 1\<rparr>) [''main_loop'', ''second_loop''])
     = Inr ''second_loop'' \<and>
   construct conv_variant cast_variant id null_construction [''main_loop'']
     = Inr (single_context, [''main_loop'']) \<and>
   \<not> from_live_loop null_construction \<and>
   snd (loop single_context [''main_loop'']) = Inl null_pointer_dereference"
  using loop_valid_only_from_live_loop [where Actions = "[''action_A'', ''action_B'']"
          and ?d0.0 = "()" and h = "[''main_loop'']"
          and ?c0.0 = null_context and ?h0.0 = "[''main_loop'']"
          and conv = conv_variant and cast = cast_variant
          and dispatcher = idle_dispatcher and event_loop = "''second_loop''" and ds = "()"
          and ?c1.0 = fresh_context and ?h1.0 = "[''main_loop'', ''second_loop'']"
          and deps_from = id and k = live_construction
          and ctx = "single_context\<lparr>loop_m := Some 1\<rparr>"
          and h' = "[''main_loop'', ''second_loop'']"]
        loop_valid_only_from_live_loop [where Actions = "[''action_A'', ''action_B'']"
          and ?d0.0 = "()" and h = "[''main_loop'']"
          and ?c0.0 = null_context and ?h0.0 = "[''main_loop'']"
          and conv = conv_variant and cast = cast_variant
          and dispatcher = idle_dispatcher and event_loop = "''second_loop''" and ds = "()"
          and ?c1.0 = fresh_context and ?h1.0 = "[''main_loop'', ''second_loop'']"
          and deps_from = id and k = null_construction
          and ctx = single_context and h' = "[''main_loop'']"]
  by (simp add: null_context_def fresh_context_def single_context_def idle_dispatcher_def
        live_construction_def null_construction_def
        context_copy_def context_converting_def
        context_default_def context_from_loop_def dispatcher_default_def
        dispatcher_init_def dispatcher_converting_def function_from_def
        find_convertible_action_aux_def conv_variant_def loop_def)

end
